theory Spec2Isabelle
  imports Complex_Main "HOL-Library.Word" "HOL-Library.AList"
begin

section \<open>JavaScript strings\<close>

text \<open>
  A JavaScript string is a sequence of UTF-16 code units: \<open>length\<close>, \<open>substring\<close>,
  \<open>startsWith\<close> and \<open>split\<close> all count code units. The bullet marker U+2022 of
  \<open>parseTextResponse\<close> is one code unit. ASCII literals of the source are written
  \<open>js ''...''\<close>.
\<close>

type_synonym jschar = "16 word"
type_synonym jsstring = "jschar list"

definition js :: "string \<Rightarrow> jsstring" where
  "js s = map of_char s"

text \<open>
  The characters that \<open>String.prototype.trim\<close> removes and that \<open>\s\<close> matches in a
  regular expression: the WhiteSpace and LineTerminator productions of ECMAScript
  (TAB, VT, FF, SP, NBSP, BOM, the Unicode space separators, LF, CR, LS, PS).
\<close>

definition isWhiteSpace :: "jschar \<Rightarrow> bool" where
  "isWhiteSpace c \<longleftrightarrow>
     c = 0x09 \<or> c = 0x0A \<or> c = 0x0B \<or> c = 0x0C \<or> c = 0x0D \<or> c = 0x20 \<or> c = 0xA0 \<or>
     c = 0x1680 \<or> (0x2000 \<le> c \<and> c \<le> 0x200A) \<or> c = 0x2028 \<or> c = 0x2029 \<or>
     c = 0x202F \<or> c = 0x205F \<or> c = 0x3000 \<or> c = 0xFEFF"

definition str_trim :: "jsstring \<Rightarrow> jsstring" where
  \<comment> \<open>\<open>s.trim()\<close>\<close>
  "str_trim s = rev (dropWhile isWhiteSpace (rev (dropWhile isWhiteSpace s)))"

fun split_from :: "jsstring \<Rightarrow> jsstring \<Rightarrow> jsstring list" where
  "split_from cur [] = [cur]"
| "split_from cur (c # cs) =
     (if c = 0x0A then cur # split_from [] cs else split_from (cur @ [c]) cs)"

definition str_split :: "jsstring \<Rightarrow> jsstring list" where
  \<comment> \<open>\<open>s.split("\n")\<close>: the pieces between line feeds, at least one piece\<close>
  "str_split s = split_from [] s"

definition substring :: "jsstring \<Rightarrow> nat \<Rightarrow> nat \<Rightarrow> jsstring" where
  \<comment> \<open>\<open>s.substring(a, b)\<close>: both indices are clamped to the length, the smaller one starts\<close>
  "substring s a b = take (max a b - min a b) (drop (min a b) s)"

definition startsWith :: "jsstring \<Rightarrow> jsstring \<Rightarrow> bool" where
  \<comment> \<open>\<open>s.startsWith(p)\<close>\<close>
  "startsWith s p \<longleftrightarrow> take (length p) s = p"

definition ellipsis :: jsstring where
  "ellipsis = js ''...''"

section \<open>The heuristic stage: parseTextResponse\<close>

definition bullet :: jschar where "bullet = 0x2022"
definition hyphen :: jschar where "hyphen = 0x2D"
definition star :: jschar where "star = 0x2A"

definition replace_marker :: "jsstring \<Rightarrow> jsstring" where
  \<comment> \<open>\<open>line.replace(/^[\<bullet>\-*]\s*/, "")\<close>: one marker at the start and the white space after it\<close>
  "replace_marker line =
     (case line of
        [] \<Rightarrow> line
      | c # rest \<Rightarrow>
          if c = bullet \<or> c = hyphen \<or> c = star then dropWhile isWhiteSpace rest else line)"

text \<open>
  The \<open>for\<close> loop of \<open>parseTextResponse\<close> over the non-blank lines; the state is the
  pair of the two local variables \<open>summary_points\<close> and \<open>detailed_flow\<close>
  (the empty string is the only falsy string).
\<close>

fun scan_lines :: "jsstring list \<Rightarrow> jsstring list \<times> jsstring \<Rightarrow> jsstring list \<times> jsstring" where
  "scan_lines [] st = st"
| "scan_lines (line # ls) (summary_points, detailed_flow) =
     (if startsWith line [bullet] \<or> startsWith line [hyphen] \<or> startsWith line [star]
      then scan_lines ls (summary_points @ [str_trim (replace_marker line)], detailed_flow)
      else if length line > 20 \<and> detailed_flow = []
      then scan_lines ls (summary_points, str_trim line)
      else scan_lines ls (summary_points, detailed_flow))"

text \<open>The object literal that \<open>parseTextResponse\<close> returns.\<close>

record text_response =
  tr_summary_points :: "jsstring list"
  tr_detailed_flow :: jsstring
  tr_confidence :: rat

definition parseTextResponse :: "jsstring \<Rightarrow> text_response" where
  "parseTextResponse text =
     (let lines = filter (\<lambda>line. str_trim line \<noteq> []) (str_split text);
          (summary_points, detailed_flow) = scan_lines lines ([], [])
      in \<lparr> tr_summary_points =
             (if length summary_points > 0 then take 5 summary_points
              else [substring text 0 50 @ ellipsis]),
           tr_detailed_flow =
             (if detailed_flow \<noteq> [] then detailed_flow else substring text 0 200 @ ellipsis),
           tr_confidence = 8 / 10 \<rparr>)"

section \<open>JavaScript values and JSON.parse\<close>

text \<open>
  The values that \<open>JSON.parse\<close> produces and that the merge step of \<open>formatForMobile\<close>
  passes on. \<open>JNum n\<close> stands for the double nearest to the decimal literal's exact
  value \<open>n\<close>. An object is the list of its own properties.

  \<open>JSON.parse\<close> is a built-in of the language; it is written out here after the JSON
  grammar that it implements: white space is space, tab, line feed and carriage return;
  a value is an object, an array, a string, a number or one of \<open>true\<close>, \<open>false\<close>,
  \<open>null\<close>. Each parser returns the value read and the rest of the input, or \<open>None\<close>
  where \<open>JSON.parse\<close> throws a SyntaxError.
\<close>

datatype jsval =
    JUndefined
  | JNull
  | JBool bool
  | JNum rat
  | JStr jsstring
  | JArr "jsval list"
  | JObj "(jsstring \<times> jsval) list"

definition json_ws :: "jschar \<Rightarrow> bool" where
  \<comment> \<open>JSON white space\<close>
  "json_ws c \<longleftrightarrow> c = 0x20 \<or> c = 0x09 \<or> c = 0x0A \<or> c = 0x0D"

definition skip_ws :: "jsstring \<Rightarrow> jsstring" where
  "skip_ws cs = dropWhile json_ws cs"

definition isDigit :: "jschar \<Rightarrow> bool" where
  "isDigit c \<longleftrightarrow> 0x30 \<le> c \<and> c \<le> 0x39"

definition digits_value :: "jsstring \<Rightarrow> nat" where
  \<comment> \<open>the number that a run of decimal digits denotes\<close>
  "digits_value ds = foldl (\<lambda>a c. 10 * a + (unat c - 48)) 0 ds"

definition hex_value :: "jschar \<Rightarrow> nat option" where
  "hex_value c =
     (if 0x30 \<le> c \<and> c \<le> 0x39 then Some (unat c - 0x30)
      else if 0x41 \<le> c \<and> c \<le> 0x46 then Some (unat c - 0x41 + 10)
      else if 0x61 \<le> c \<and> c \<le> 0x66 then Some (unat c - 0x61 + 10)
      else None)"

definition hex4 :: "jschar \<Rightarrow> jschar \<Rightarrow> jschar \<Rightarrow> jschar \<Rightarrow> jschar option" where
  \<comment> \<open>the code unit of a \<open>\u\<close> escape with these four hexadecimal digits\<close>
  "hex4 a b c d =
     (case (hex_value a, hex_value b, hex_value c, hex_value d) of
        (Some x, Some y, Some z, Some w) \<Rightarrow> Some (of_nat (((x * 16 + y) * 16 + z) * 16 + w))
      | _ \<Rightarrow> None)"

definition escape_char :: "jschar \<Rightarrow> jschar option" where
  \<comment> \<open>the escapes of one character: quote, backslash, slash, b, f, n, r, t\<close>
  "escape_char e =
     (if e = 0x22 then Some 0x22
      else if e = 0x5C then Some 0x5C
      else if e = 0x2F then Some 0x2F
      else if e = 0x62 then Some 0x08
      else if e = 0x66 then Some 0x0C
      else if e = 0x6E then Some 0x0A
      else if e = 0x72 then Some 0x0D
      else if e = 0x74 then Some 0x09
      else None)"

text \<open>
  The characters of a string after its opening quote, up to the closing quote: an escape,
  or any code unit from U+0020 on; an unescaped control character is an error.
\<close>

fun parse_chars :: "jsstring \<Rightarrow> jsstring \<Rightarrow> (jsstring \<times> jsstring) option" where
  "parse_chars acc [] = None"
| "parse_chars acc [c] = (if c = 0x22 then Some (acc, []) else None)"
| "parse_chars acc (c # e # cs) =
     (if c = 0x22 then Some (acc, e # cs)
      else if c = 0x5C then
        (if e = 0x75 then
           (case cs of
              h1 # h2 # h3 # h4 # rest \<Rightarrow>
                (case hex4 h1 h2 h3 h4 of
                   Some u \<Rightarrow> parse_chars (acc @ [u]) rest
                 | None \<Rightarrow> None)
            | _ \<Rightarrow> None)
         else
           (case escape_char e of
              Some u \<Rightarrow> parse_chars (acc @ [u]) cs
            | None \<Rightarrow> None))
      else if c < 0x20 then None
      else parse_chars (acc @ [c]) (e # cs))"

text \<open>
  A number: an optional minus sign, an integer part (a single 0, or digits that start
  with 1 to 9), an optional fraction (a point and at least one digit) and an optional
  exponent (e or E, an optional sign, at least one digit).
\<close>

definition parse_int_part :: "jsstring \<Rightarrow> (nat \<times> jsstring) option" where
  "parse_int_part cs =
     (case cs of
        [] \<Rightarrow> None
      | c # rest \<Rightarrow>
          if c = 0x30 then Some (0, rest)
          else if isDigit c then Some (digits_value (takeWhile isDigit cs), dropWhile isDigit cs)
          else None)"

definition parse_frac_part :: "jsstring \<Rightarrow> (rat \<times> jsstring) option" where
  "parse_frac_part cs =
     (case cs of
        [] \<Rightarrow> Some (0, cs)
      | c # rest \<Rightarrow>
          if c = 0x2E then
            (let ds = takeWhile isDigit rest
             in if ds = [] then None
                else Some (of_nat (digits_value ds) / 10 ^ length ds, dropWhile isDigit rest))
          else Some (0, cs))"

definition parse_exp_part :: "jsstring \<Rightarrow> (int \<times> jsstring) option" where
  "parse_exp_part cs =
     (case cs of
        [] \<Rightarrow> Some (0, cs)
      | c # rest \<Rightarrow>
          if c = 0x65 \<or> c = 0x45 then
            (let (neg, rest') =
                   (case rest of
                      [] \<Rightarrow> (False, rest)
                    | s # r \<Rightarrow> if s = 0x2D then (True, r) else if s = 0x2B then (False, r) else (False, rest));
                 ds = takeWhile isDigit rest'
             in if ds = [] then None
                else Some (if neg then - int (digits_value ds) else int (digits_value ds),
                           dropWhile isDigit rest'))
          else Some (0, cs))"

definition parse_number :: "jsstring \<Rightarrow> (rat \<times> jsstring) option" where
  "parse_number cs =
     (let (neg, cs1) = (case cs of [] \<Rightarrow> (False, cs) | c # r \<Rightarrow> if c = 0x2D then (True, r) else (False, cs))
      in case parse_int_part cs1 of
           None \<Rightarrow> None
         | Some (i, cs2) \<Rightarrow>
             (case parse_frac_part cs2 of
                None \<Rightarrow> None
              | Some (f, cs3) \<Rightarrow>
                  (case parse_exp_part cs3 of
                     None \<Rightarrow> None
                   | Some (e, cs4) \<Rightarrow>
                       Some ((if neg then - 1 else 1) * (of_nat i + f) * (if e < 0 then 1 / 10 ^ nat (- e) else 10 ^ nat e),
                             cs4))))"

text \<open>
  Values, the elements of an array after its opening bracket, and the members of an object
  after its opening brace. A member that repeats a key replaces the earlier value.
\<close>

function (domintros) parse_value :: "jsstring \<Rightarrow> (jsval \<times> jsstring) option"
  and parse_elements :: "jsval list \<Rightarrow> jsstring \<Rightarrow> (jsval \<times> jsstring) option"
  and parse_members :: "(jsstring \<times> jsval) list \<Rightarrow> jsstring \<Rightarrow> (jsval \<times> jsstring) option"
where
  "parse_value cs =
     (case skip_ws cs of
        [] \<Rightarrow> None
      | c # rest \<Rightarrow>
          if c = 0x7B then
            (case skip_ws rest of
               [] \<Rightarrow> None
             | d # r \<Rightarrow> if d = 0x7D then Some (JObj [], r) else parse_members [] rest)
          else if c = 0x5B then
            (case skip_ws rest of
               [] \<Rightarrow> None
             | d # r \<Rightarrow> if d = 0x5D then Some (JArr [], r) else parse_elements [] rest)
          else if c = 0x22 then map_option (\<lambda>(s, r). (JStr s, r)) (parse_chars [] rest)
          else if c = 0x2D \<or> isDigit c then map_option (\<lambda>(n, r). (JNum n, r)) (parse_number (c # rest))
          else if startsWith (c # rest) (js ''true'') then Some (JBool True, drop 4 (c # rest))
          else if startsWith (c # rest) (js ''false'') then Some (JBool False, drop 5 (c # rest))
          else if startsWith (c # rest) (js ''null'') then Some (JNull, drop 4 (c # rest))
          else None)"
| "parse_elements acc cs =
     (case parse_value cs of
        None \<Rightarrow> None
      | Some (v, r) \<Rightarrow>
          (case skip_ws r of
             [] \<Rightarrow> None
           | d # r' \<Rightarrow>
               if d = 0x2C then parse_elements (acc @ [v]) r'
               else if d = 0x5D then Some (JArr (acc @ [v]), r')
               else None))"
| "parse_members acc cs =
     (case skip_ws cs of
        [] \<Rightarrow> None
      | q # r1 \<Rightarrow>
          if q = 0x22 then
            (case parse_chars [] r1 of
               None \<Rightarrow> None
             | Some (k, r2) \<Rightarrow>
                 (case skip_ws r2 of
                    [] \<Rightarrow> None
                  | colon # r3 \<Rightarrow>
                      if colon = 0x3A then
                        (case parse_value r3 of
                           None \<Rightarrow> None
                         | Some (v, r4) \<Rightarrow>
                             (case skip_ws r4 of
                                [] \<Rightarrow> None
                              | d # r5 \<Rightarrow>
                                  if d = 0x2C then parse_members (AList.update k v acc) r5
                                  else if d = 0x7D then Some (JObj (AList.update k v acc), r5)
                                  else None))
                      else None))
          else None)"
  by pat_completeness auto

text \<open>Every parser consumes input, so the three functions terminate on every text.\<close>

lemma length_skip_ws: "length (skip_ws cs) \<le> length cs"
  by (simp add: skip_ws_def length_dropWhile_le)

lemma skip_ws_Cons_length: "skip_ws cs = c # rest \<Longrightarrow> length rest < length cs"
  using length_skip_ws [of cs] by simp

lemma parse_chars_length: "parse_chars acc cs = Some (s, r) \<Longrightarrow> length r < length cs"
proof (induction "length cs" arbitrary: acc cs rule: less_induct)
  case less
  show ?case
  proof (cases cs rule: remdups_adj.cases)
    case 1
    with less.prems show ?thesis by simp
  next
    case (2 c)
    with less.prems show ?thesis by (simp split: if_splits)
  next
    case (3 c e cs')
    show ?thesis
    proof (cases "c = 0x22")
      case True
      with less.prems 3 show ?thesis by simp
    next
      case quote: False
      show ?thesis
      proof (cases "c = 0x5C")
        case False
        with quote less.prems 3 have "parse_chars (acc @ [c]) (e # cs') = Some (s, r)"
          by (simp split: if_splits)
        from less.hyps [OF _ this] 3 show ?thesis by simp
      next
        case bs: True
        show ?thesis
        proof (cases "e = 0x75")
          case False
          with bs quote less.prems 3 obtain u where "parse_chars (acc @ [u]) cs' = Some (s, r)"
            by (auto split: option.splits)
          from less.hyps [OF _ this] 3 show ?thesis by simp
        next
          case True
          with bs quote less.prems 3 obtain h1 h2 h3 h4 rest u
            where cs': "cs' = h1 # h2 # h3 # h4 # rest"
              and "parse_chars (acc @ [u]) rest = Some (s, r)"
            by (auto split: list.splits option.splits)
          from less.hyps [OF _ this(2)] 3 cs' show ?thesis by simp
        qed
      qed
    qed
  qed
qed

lemma parse_int_part_length: "parse_int_part cs = Some (i, r) \<Longrightarrow> length r < length cs"
  using length_dropWhile_le [of isDigit "tl cs"]
  by (cases cs) (auto simp: parse_int_part_def split: if_splits)

lemma parse_frac_part_length: "parse_frac_part cs = Some (f, r) \<Longrightarrow> length r \<le> length cs"
  using length_dropWhile_le [of isDigit "tl cs"]
  by (cases cs) (auto simp: parse_frac_part_def Let_def split: if_splits)

lemma parse_exp_part_length: "parse_exp_part cs = Some (e, r) \<Longrightarrow> length r \<le> length cs"
proof (cases cs)
  case Nil
  then show "parse_exp_part cs = Some (e, r) \<Longrightarrow> length r \<le> length cs"
    by (simp add: parse_exp_part_def)
next
  case (Cons c rest)
  assume p: "parse_exp_part cs = Some (e, r)"
  show "length r \<le> length cs"
  proof (cases "c = 0x65 \<or> c = 0x45")
    case False
    with p Cons show ?thesis by (simp add: parse_exp_part_def)
  next
    case True
    obtain neg rest' where nr: "(case rest of
                      [] \<Rightarrow> (False, rest)
                    | s # r \<Rightarrow> if s = 0x2D then (True, r) else if s = 0x2B then (False, r) else (False, rest)) = (neg, rest')"
      by (cases "(case rest of
                      [] \<Rightarrow> (False, rest)
                    | s # r \<Rightarrow> if s = 0x2D then (True, r) else if s = 0x2B then (False, r) else (False, rest))")
    then have "length rest' \<le> length rest"
      by (auto split: list.splits if_splits)
    moreover from p Cons True nr have "r = dropWhile isDigit rest'"
      by (auto simp: parse_exp_part_def Let_def split: if_splits)
    ultimately show ?thesis
      using length_dropWhile_le [of isDigit rest'] Cons by simp
  qed
qed

lemma parse_number_length:
  assumes "parse_number cs = Some (n, r)"
  shows "length r < length cs"
proof -
  obtain neg cs1 where s: "(case cs of [] \<Rightarrow> (False, cs) | c # r \<Rightarrow> if c = 0x2D then (True, r) else (False, cs)) = (neg, cs1)"
    by (cases "(case cs of [] \<Rightarrow> (False, cs) | c # r \<Rightarrow> if c = 0x2D then (True, r) else (False, cs))")
  then have l1: "length cs1 \<le> length cs"
    by (auto split: list.splits if_splits)
  from assms s obtain i cs2 where i: "parse_int_part cs1 = Some (i, cs2)"
    by (auto simp: parse_number_def split: option.splits)
  from assms s i obtain f cs3 where f: "parse_frac_part cs2 = Some (f, cs3)"
    by (auto simp: parse_number_def split: option.splits)
  from assms s i f obtain e where e: "parse_exp_part cs3 = Some (e, r)"
    by (auto simp: parse_number_def split: option.splits)
  from parse_int_part_length [OF i] parse_frac_part_length [OF f] parse_exp_part_length [OF e] l1
  show ?thesis by simp
qed

lemma parse_consumes:
  "parse_value_parse_elements_parse_members_dom (Inl cs) \<Longrightarrow>
     (\<forall>v r. parse_value cs = Some (v, r) \<longrightarrow> length r < length cs)"
  "parse_value_parse_elements_parse_members_dom (Inr (Inl (es, cs1))) \<Longrightarrow>
     (\<forall>v r. parse_elements es cs1 = Some (v, r) \<longrightarrow> length r < length cs1)"
  "parse_value_parse_elements_parse_members_dom (Inr (Inr (ms, cs2))) \<Longrightarrow>
     (\<forall>v r. parse_members ms cs2 = Some (v, r) \<longrightarrow> length r < length cs2)"
proof (induction cs and es cs1 and ms cs2 rule: parse_value_parse_elements_parse_members.pinduct)
  case (1 cs)
  show ?case
  proof (intro allI impI)
    fix v r assume p: "parse_value cs = Some (v, r)"
    from p obtain c rest where sk: "skip_ws cs = c # rest"
      by (cases "skip_ws cs") (simp_all add: parse_value.psimps [OF "1.hyps"])
    have lr: "length rest < length cs" by (rule skip_ws_Cons_length [OF sk])
    note ps = p [unfolded parse_value.psimps [OF "1.hyps"] sk, simplified]
    consider (obj) "c = 0x7B" | (arr) "c \<noteq> 0x7B" "c = 0x5B" | (str) "c \<noteq> 0x7B" "c \<noteq> 0x5B" "c = 0x22"
      | (num) "c \<noteq> 0x7B" "c \<noteq> 0x5B" "c \<noteq> 0x22" "c = 0x2D \<or> isDigit c"
      | (lit) "c \<noteq> 0x7B" "c \<noteq> 0x5B" "c \<noteq> 0x22" "\<not> (c = 0x2D \<or> isDigit c)"
      by blast
    then show "length r < length cs"
    proof cases
      case obj
      with ps obtain d r' where sk2: "skip_ws rest = d # r'"
        by (cases "skip_ws rest") simp_all
      show ?thesis
      proof (cases "d = 0x7D")
        case True
        with ps obj sk2 have "r = r'" by simp
        with skip_ws_Cons_length [OF sk2] lr show ?thesis by simp
      next
        case False
        with ps obj sk2 have "parse_members [] rest = Some (v, r)" by simp
        with "1.IH"(1) [OF sk obj sk2 False] lr show ?thesis by fastforce
      qed
    next
      case arr
      with ps obtain d r' where sk2: "skip_ws rest = d # r'"
        by (cases "skip_ws rest") simp_all
      show ?thesis
      proof (cases "d = 0x5D")
        case True
        with ps arr sk2 have "r = r'" by simp
        with skip_ws_Cons_length [OF sk2] lr show ?thesis by simp
      next
        case False
        with ps arr sk2 have "parse_elements [] rest = Some (v, r)" by simp
        with "1.IH"(2) [OF sk arr sk2 False] lr show ?thesis by fastforce
      qed
    next
      case str
      with ps obtain s where "parse_chars [] rest = Some (s, r)" by auto
      from parse_chars_length [OF this] lr show ?thesis by simp
    next
      case num
      with ps obtain n where "parse_number (c # rest) = Some (n, r)" by auto
      from parse_number_length [OF this] lr show ?thesis by simp
    next
      case lit
      with ps have "r = drop 4 (c # rest) \<or> r = drop 5 (c # rest)"
        by (auto split: if_splits)
      with lr show ?thesis by auto
    qed
  qed
next
  case (2 acc cs)
  show ?case
  proof (intro allI impI)
    fix v r assume p: "parse_elements acc cs = Some (v, r)"
    note ps = p [unfolded parse_elements.psimps [OF "2.hyps"]]
    from ps obtain v1 r1 where pv: "parse_value cs = Some (v1, r1)"
      by (cases "parse_value cs") auto
    with "2.IH"(1) have l1: "length r1 < length cs" by simp
    from ps pv obtain d r' where sk: "skip_ws r1 = d # r'"
      by (cases "skip_ws r1") simp_all
    have l2: "length r' < length r1" by (rule skip_ws_Cons_length [OF sk])
    show "length r < length cs"
    proof (cases "d = 0x2C")
      case True
      with ps pv sk have "parse_elements (acc @ [v1]) r' = Some (v, r)" by simp
      with "2.IH"(2) [OF pv refl sk True] l1 l2 show ?thesis by fastforce
    next
      case False
      with ps pv sk have "r = r'" by (simp split: if_splits)
      with l1 l2 show ?thesis by simp
    qed
  qed
next
  case (3 acc cs)
  show ?case
  proof (intro allI impI)
    fix v r assume p: "parse_members acc cs = Some (v, r)"
    note ps = p [unfolded parse_members.psimps [OF "3.hyps"]]
    from ps obtain q r1 where sk1: "skip_ws cs = q # r1"
      by (cases "skip_ws cs") simp_all
    from ps sk1 have q: "q = 0x22" by (simp split: if_splits)
    from ps sk1 q obtain k r2 where pk: "parse_chars [] r1 = Some (k, r2)"
      by (cases "parse_chars [] r1") auto
    from ps sk1 q pk obtain colon r3 where sk2: "skip_ws r2 = colon # r3"
      by (cases "skip_ws r2") simp_all
    from ps sk1 q pk sk2 have colon: "colon = 0x3A" by (simp split: if_splits)
    from ps sk1 q pk sk2 colon obtain v1 r4 where pv: "parse_value r3 = Some (v1, r4)"
      by (cases "parse_value r3") auto
    from ps sk1 q pk sk2 colon pv obtain d r5 where sk3: "skip_ws r4 = d # r5"
      by (cases "skip_ws r4") simp_all
    from "3.IH"(1) [OF sk1 q pk refl sk2 colon] pv have l4: "length r4 < length r3" by simp
    have l: "length r5 < length cs"
      using skip_ws_Cons_length [OF sk1] parse_chars_length [OF pk] skip_ws_Cons_length [OF sk2]
        l4 skip_ws_Cons_length [OF sk3] by simp
    show "length r < length cs"
    proof (cases "d = 0x2C")
      case True
      with ps sk1 q pk sk2 colon pv sk3 have "parse_members (AList.update k v1 acc) r5 = Some (v, r)"
        by simp
      with "3.IH"(2) [OF sk1 q pk refl sk2 colon pv refl sk3 True] l show ?thesis by fastforce
    next
      case False
      with ps sk1 q pk sk2 colon pv sk3 have "r = r5" by (simp split: if_splits)
      with l show ?thesis by simp
    qed
  qed
qed

termination parse_value
proof (relation "measure (\<lambda>x. case x of Inl cs \<Rightarrow> 2 * length cs
                                   | Inr (Inl (acc, cs)) \<Rightarrow> 2 * length cs + 1
                                   | Inr (Inr (acc, cs)) \<Rightarrow> 2 * length cs + 1)", goal_cases)
  case 1
  show ?case by simp
next
  case (2 cs c rest d r)
  from skip_ws_Cons_length [OF 2(1)] show ?case by simp
next
  case (3 cs c rest d r)
  from skip_ws_Cons_length [OF 3(1)] show ?case by simp
next
  case (4 acc cs)
  show ?case by simp
next
  case (5 acc cs x2 v r d r')
  from parse_consumes(1) [OF 5(5)] 5(1,2) have "length r < length cs" by auto
  with skip_ws_Cons_length [OF 5(3)] show ?case by simp
next
  case (6 acc cs q r1 x2 k r2 colon r3)
  from skip_ws_Cons_length [OF 6(1)] parse_chars_length [of "[]" r1 k r2] 6(3,4)
    skip_ws_Cons_length [OF 6(5)]
  show ?case by simp
next
  case (7 acc cs q r1 x2 k r2 colon r3 x2a v r4 d r5)
  from parse_consumes(1) [OF 7(11)] 7(7,8) have "length r4 < length r3" by auto
  with skip_ws_Cons_length [OF 7(1)] parse_chars_length [of "[]" r1 k r2] 7(3,4)
    skip_ws_Cons_length [OF 7(5)] skip_ws_Cons_length [OF 7(9)]
  show ?case by simp
qed


datatype js_error = TypeError | SyntaxError

definition JSON_parse :: "jsstring \<Rightarrow> js_error + jsval" where
  \<comment> \<open>\<open>JSON.parse(s)\<close>: one value between optional white space, or a SyntaxError\<close>
  "JSON_parse s =
     (case parse_value s of
        None \<Rightarrow> Inl SyntaxError
      | Some (v, rest) \<Rightarrow> if skip_ws rest = [] then Inr v else Inl SyntaxError)"

text \<open>
  Truthiness, as \<open>||\<close> tests it. A number is falsy when it is zero: the double
  nearest to \<open>n\<close> is zero exactly when \<open>\<bar>n\<bar>\<close> is at most half the smallest
  subnormal (ties go to the even neighbour, which is zero). An empty array and an empty
  object are truthy.
\<close>

definition is_zero_double :: "rat \<Rightarrow> bool" where
  "is_zero_double n \<longleftrightarrow> \<bar>n\<bar> \<le> 1 / 2 ^ 1075"

fun truthy :: "jsval \<Rightarrow> bool" where
  "truthy JUndefined = False"
| "truthy JNull = False"
| "truthy (JBool b) = b"
| "truthy (JNum n) = (\<not> is_zero_double n)"
| "truthy (JStr s) = (s \<noteq> [])"
| "truthy (JArr xs) = True"
| "truthy (JObj props) = True"

definition js_or :: "jsval \<Rightarrow> jsval \<Rightarrow> jsval" where
  \<comment> \<open>\<open>a || b\<close> for an operand \<open>b\<close> that cannot throw\<close>
  "js_or a b = (if truthy a then a else b)"

text \<open>
  Reading one of the properties \<open>summary_points\<close>, \<open>detailed_flow\<close>,
  \<open>code_snippets\<close>, \<open>confidence\<close>, which no built-in prototype defines: a TypeError on
  \<open>null\<close> and \<open>undefined\<close>, the own property of an object, \<open>undefined\<close> otherwise.
\<close>

fun get_prop :: "jsval \<Rightarrow> jsstring \<Rightarrow> js_error + jsval" where
  "get_prop JUndefined k = Inl TypeError"
| "get_prop JNull k = Inl TypeError"
| "get_prop (JObj props) k = Inr (case map_of props k of Some v \<Rightarrow> v | None \<Rightarrow> JUndefined)"
| "get_prop v k = Inr JUndefined"

definition try_bind :: "js_error + 'a \<Rightarrow> ('a \<Rightarrow> js_error + 'b) \<Rightarrow> js_error + 'b" where
  \<comment> \<open>sequencing inside a \<open>try\<close> block: the first throw ends the block\<close>
  "try_bind m f = (case m of Inl e \<Rightarrow> Inl e | Inr x \<Rightarrow> f x)"

section \<open>The response normalizer: formatForMobile\<close>

text \<open>
  The completion payload as far as \<open>claudeResponse.content[0].text\<close> reads it. The
  payload itself may be \<open>null\<close> or \<open>undefined\<close>, its \<open>content\<close> may be missing, the
  list of blocks may be empty, the first block may be \<open>null\<close>; the \<open>text\<close> of a block is a
  string, or absent (\<open>undefined\<close>) as in a block that is not a text block.
\<close>

datatype block = NullBlock | Block "jsstring option"

datatype payload = NullPayload | Payload "block list option"

fun extract_text :: "payload \<Rightarrow> js_error + jsstring option" where
  "extract_text NullPayload = Inl TypeError"
| "extract_text (Payload None) = Inl TypeError"
| "extract_text (Payload (Some [])) = Inl TypeError"
| "extract_text (Payload (Some (NullBlock # bs))) = Inl TypeError"
| "extract_text (Payload (Some (Block text # bs))) = Inr text"

definition ToString :: "jsstring option \<Rightarrow> jsstring" where
  \<comment> \<open>the string that \<open>JSON.parse\<close> makes of its argument\<close>
  "ToString content = (case content of None \<Rightarrow> js ''undefined'' | Some text \<Rightarrow> text)"

definition response_obj :: "text_response \<Rightarrow> jsval" where
  "response_obj r =
     JObj [(js ''summary_points'', JArr (map JStr (tr_summary_points r))),
           (js ''detailed_flow'', JStr (tr_detailed_flow r)),
           (js ''confidence'', JNum (tr_confidence r))]"

definition call_parseTextResponse :: "jsstring option \<Rightarrow> js_error + jsval" where
  \<comment> \<open>\<open>parseTextResponse(content)\<close>: \<open>text.split\<close> throws on \<open>undefined\<close>\<close>
  "call_parseTextResponse content =
     (case content of
        None \<Rightarrow> Inl TypeError
      | Some text \<Rightarrow> Inr (response_obj (parseTextResponse text)))"

definition content_prefix :: "jsstring option \<Rightarrow> js_error + jsval" where
  \<comment> \<open>\<open>content.substring(0, 200) + "..."\<close>\<close>
  "content_prefix content =
     (case content of
        None \<Rightarrow> Inl TypeError
      | Some text \<Rightarrow> Inr (JStr (substring text 0 200 @ ellipsis)))"

text \<open>
  The record that \<open>formatForMobile\<close> returns. \<open>code_snippets = JUndefined\<close> is a record
  without code snippets: the property is \<open>undefined\<close> or missing, and no JSON reply
  carries it.
\<close>

record mobile_summary =
  summary_points :: jsval
  detailed_flow :: jsval
  code_snippets :: jsval
  confidence :: jsval
  mobile_optimized :: bool

definition parse_content :: "jsstring option \<Rightarrow> js_error + jsval" where
  \<comment> \<open>the inner \<open>try\<close>/\<open>catch\<close>: JSON first, the text heuristic on any parse error\<close>
  "parse_content content =
     (case JSON_parse (ToString content) of
        Inr v \<Rightarrow> Inr v
      | Inl parseError \<Rightarrow> call_parseTextResponse content)"

definition format_try :: "payload \<Rightarrow> js_error + mobile_summary" where
  \<comment> \<open>the outer \<open>try\<close> block of \<open>formatForMobile\<close>\<close>
  "format_try claudeResponse =
     try_bind (extract_text claudeResponse) (\<lambda>content.
     try_bind (parse_content content) (\<lambda>parsedContent.
     try_bind (get_prop parsedContent (js ''summary_points'')) (\<lambda>sp.
     try_bind (get_prop parsedContent (js ''detailed_flow'')) (\<lambda>df.
     try_bind (if truthy df then Inr df else content_prefix content) (\<lambda>df'.
     try_bind (get_prop parsedContent (js ''code_snippets'')) (\<lambda>cs.
     try_bind (get_prop parsedContent (js ''confidence'')) (\<lambda>cf.
       Inr \<lparr> summary_points = js_or sp (JArr [JStr (js ''Response received'')]),
             detailed_flow = df',
             code_snippets = cs,
             confidence = js_or cf (JNum (8 / 10)),
             mobile_optimized = True \<rparr>)))))))"

definition fallback :: mobile_summary where
  "fallback =
     \<lparr> summary_points = JArr [JStr (js ''Error processing response'')],
       detailed_flow = JStr (js ''Unable to format response properly''),
       code_snippets = JUndefined,
       confidence = JNum (5 / 10),
       mobile_optimized = True \<rparr>"

definition formatForMobile :: "payload \<Rightarrow> mobile_summary" where
  "formatForMobile claudeResponse =
     (case format_try claudeResponse of
        Inr summary \<Rightarrow> summary
      | Inl error \<Rightarrow> fallback)"

section \<open>The upstream client: callClaude\<close>

text \<open>
  \<open>parseInt(s)\<close> without a radix: leading white space, an optional sign, an optional
  \<open>0x\<close> prefix that selects radix 16, then the longest run of digits; \<open>NaN\<close> when there
  is no digit. The model keeps the exact integer.
\<close>

datatype jsint = NaN | Finite int

definition radix_digit :: "nat \<Rightarrow> jschar \<Rightarrow> nat option" where
  "radix_digit R c =
     (case hex_value c of
        None \<Rightarrow> None
      | Some d \<Rightarrow> if d < R then Some d else None)"

fun take_digits :: "nat \<Rightarrow> jsstring \<Rightarrow> nat list" where
  "take_digits R [] = []"
| "take_digits R (c # cs) =
     (case radix_digit R c of
        None \<Rightarrow> []
      | Some d \<Rightarrow> d # take_digits R cs)"

definition parseInt :: "jsstring \<Rightarrow> jsint" where
  "parseInt s =
     (let s1 = dropWhile isWhiteSpace s;
          (sign, s2) =
             (case s1 of
                [] \<Rightarrow> (1, s1)
              | c # r \<Rightarrow> if c = 0x2D then (- 1, r) else if c = 0x2B then (1, r) else (1, s1));
          (R, s3) =
             (if startsWith s2 (js ''0x'') \<or> startsWith s2 (js ''0X'') then (16, drop 2 s2)
              else (10, s2));
          z = take_digits R s3
      in if z = [] then NaN else Finite (sign * int (foldl (\<lambda>a d. R * a + d) 0 z)))"

text \<open>
  What \<open>axios.post\<close> rejects with: \<open>error.response\<close> (status and headers of the upstream
  reply, when there was one; header names are in lower case), \<open>error.code\<close> and
  \<open>error.message\<close>.
\<close>

record upstream_response =
  resp_status :: nat
  resp_headers :: "jsstring \<rightharpoonup> jsstring"

record axios_error =
  response :: "upstream_response option"
  code :: "jsstring option"
  message :: "jsstring option"

datatype error_code =
    INVALID_PROMPT
  | PROMPT_TOO_LONG
  | RATE_LIMIT_EXCEEDED
  | INVALID_REQUEST
  | AUTHENTICATION_ERROR
  | TIMEOUT
  | UNKNOWN_ERROR
  | INTERNAL_ERROR

text \<open>The object that \<open>callClaude\<close> throws; \<open>retryAfter = None\<close> is an object without that property.\<close>

record classified_error =
  err_code :: error_code
  err_message :: jsstring
  retryAfter :: "jsint option"

definition retry_after_header :: "axios_error \<Rightarrow> jsstring option" where
  \<comment> \<open>\<open>error.response.headers["retry-after"]\<close>\<close>
  "retry_after_header error =
     (case response error of
        None \<Rightarrow> None
      | Some r \<Rightarrow> resp_headers r (js ''retry-after''))"

definition callClaude_catch :: "axios_error \<Rightarrow> classified_error" where
  \<comment> \<open>the \<open>catch\<close> block of \<open>callClaude\<close>; \<open>parseInt(60)\<close> reads the string \<open>"60"\<close>\<close>
  "callClaude_catch error =
     (if map_option resp_status (response error) = Some 429 then
        \<lparr> err_code = RATE_LIMIT_EXCEEDED,
          err_message = js ''Rate limit exceeded'',
          retryAfter =
            Some (case retry_after_header error of
                    None \<Rightarrow> parseInt (js ''60'')
                  | Some h \<Rightarrow> if h = [] then parseInt (js ''60'') else parseInt h) \<rparr>
      else if map_option resp_status (response error) = Some 400 then
        \<lparr> err_code = INVALID_REQUEST,
          err_message = js ''Invalid request format or parameters'',
          retryAfter = None \<rparr>
      else if map_option resp_status (response error) = Some 401 then
        \<lparr> err_code = AUTHENTICATION_ERROR,
          err_message = js ''Authentication failed'',
          retryAfter = None \<rparr>
      else if code error = Some (js ''ECONNABORTED'') then
        \<lparr> err_code = TIMEOUT,
          err_message = js ''Request timeout'',
          retryAfter = None \<rparr>
      else
        \<lparr> err_code = UNKNOWN_ERROR,
          err_message =
            (case message error of
               None \<Rightarrow> js ''Unknown error occurred''
             | Some m \<Rightarrow> if m = [] then js ''Unknown error occurred'' else m),
          retryAfter = None \<rparr>)"

text \<open>
  The request that \<open>callClaude\<close> posts, and what the post comes back with: a reply whose
  \<open>data\<close> is a payload object (its \<open>content\<close> present or not), or a rejection.
\<close>

record upstream_request =
  req_prompt :: jsstring
  req_max_tokens :: jsval
  req_temperature :: jsval
  req_top_p :: jsval

datatype upstream_outcome = Resolved "block list option" | Rejected axios_error

record options =
  opt_temperature :: jsval
  opt_max_tokens :: jsval
  opt_top_p :: jsval

definition default_to :: "jsval \<Rightarrow> jsval \<Rightarrow> jsval" where
  \<comment> \<open>a destructuring default: it replaces \<open>undefined\<close> only\<close>
  "default_to v d = (if v = JUndefined then d else v)"

definition callClaude ::
  "(upstream_request \<Rightarrow> upstream_outcome) \<Rightarrow> jsstring \<Rightarrow> options \<Rightarrow>
     (classified_error + payload) \<times> upstream_request list" where
  \<comment> \<open>the result, and the requests posted on the way\<close>
  "callClaude axios_post prompt opts =
     (let request =
            \<lparr> req_prompt = prompt,
              req_max_tokens = default_to (opt_max_tokens opts) (JNum 1500),
              req_temperature = default_to (opt_temperature opts) (JNum (3 / 10)),
              req_top_p = default_to (opt_top_p opts) (JNum (9 / 10)) \<rparr>
      in case axios_post request of
           Resolved content \<Rightarrow> (Inr (Payload content), [request])
         | Rejected error \<Rightarrow> (Inl (callClaude_catch error), [request]))"

section \<open>The endpoint: POST /api/query\<close>

record request_body =
  prompt :: jsval
  temperature :: jsval
  max_tokens :: jsval
  top_p :: jsval

text \<open>
  The JSON reply: \<open>{success, data}\<close> or \<open>{error, code, retryAfter?}\<close> (the time stamp
  is left out), with its HTTP status.
\<close>

datatype reply_json = Data mobile_summary | Failure jsstring error_code "int option"

record http_reply =
  reply_status :: nat
  reply_body :: reply_json

definition retry_or_60 :: "jsint option \<Rightarrow> int" where
  \<comment> \<open>\<open>error.retryAfter || 60\<close>: a missing property, \<open>NaN\<close> and \<open>0\<close> are falsy\<close>
  "retry_or_60 r =
     (case r of
        None \<Rightarrow> 60
      | Some NaN \<Rightarrow> 60
      | Some (Finite n) \<Rightarrow> if n = 0 then 60 else n)"

definition query_catch :: "classified_error \<Rightarrow> http_reply" where
  \<comment> \<open>the \<open>catch\<close> block of the handler\<close>
  "query_catch error =
     (if err_code error = RATE_LIMIT_EXCEEDED then
        \<lparr> reply_status = 429,
          reply_body = Failure (js ''Rate limit exceeded. Please try again later.'')
                         RATE_LIMIT_EXCEEDED (Some (retry_or_60 (retryAfter error))) \<rparr>
      else if err_code error = INVALID_REQUEST then
        \<lparr> reply_status = 400,
          reply_body = Failure (js ''Invalid request format or parameters'') INVALID_REQUEST None \<rparr>
      else if err_code error = AUTHENTICATION_ERROR then
        \<lparr> reply_status = 401,
          reply_body = Failure (js ''Authentication failed'') AUTHENTICATION_ERROR None \<rparr>
      else if err_code error = TIMEOUT then
        \<lparr> reply_status = 504,
          reply_body = Failure (js ''Request timeout'') TIMEOUT None \<rparr>
      else
        \<lparr> reply_status = 500,
          reply_body = Failure (js ''Internal server error'') INTERNAL_ERROR None \<rparr>)"

definition invalid_prompt :: http_reply where
  "invalid_prompt =
     \<lparr> reply_status = 400,
       reply_body = Failure (js ''Invalid or missing prompt'') INVALID_PROMPT None \<rparr>"

definition prompt_too_long :: http_reply where
  "prompt_too_long =
     \<lparr> reply_status = 400,
       reply_body = Failure (js ''Prompt too long (max 10000 characters)'') PROMPT_TOO_LONG None \<rparr>"

text \<open>
  The handler, given the behaviour of \<open>axios.post\<close>: the reply, and the requests posted
  upstream. \<open>!prompt || typeof prompt !== "string"\<close> rejects every value that is not a
  string, and the empty string, the only falsy string.
\<close>

definition query_handler ::
  "(upstream_request \<Rightarrow> upstream_outcome) \<Rightarrow> request_body \<Rightarrow> http_reply \<times> upstream_request list" where
  "query_handler axios_post body =
     (case prompt body of
        JStr p \<Rightarrow>
          if p = [] then (invalid_prompt, [])
          else if length p > 10000 then (prompt_too_long, [])
          else
            (case callClaude axios_post p
                    \<lparr> opt_temperature = default_to (temperature body) (JNum (3 / 10)),
                      opt_max_tokens = default_to (max_tokens body) (JNum 800),
                      opt_top_p = default_to (top_p body) (JNum (9 / 10)) \<rparr> of
               (Inr data, posted) \<Rightarrow>
                 (\<lparr> reply_status = 200, reply_body = Data (formatForMobile data) \<rparr>, posted)
             | (Inl error, posted) \<Rightarrow> (query_catch error, posted))
      | other \<Rightarrow> (invalid_prompt, []))"

section \<open>Notions of the specification\<close>

fun typeof :: "jsval \<Rightarrow> string" where
  "typeof JUndefined = ''undefined''"
| "typeof JNull = ''object''"
| "typeof (JBool b) = ''boolean''"
| "typeof (JNum n) = ''number''"
| "typeof (JStr s) = ''string''"
| "typeof (JArr xs) = ''object''"
| "typeof (JObj props) = ''object''"

definition reply_code :: "http_reply \<Rightarrow> error_code option" where
  \<comment> \<open>the \<open>code\<close> field of a reply; a success reply has none\<close>
  "reply_code r = (case reply_body r of Data d \<Rightarrow> None | Failure msg c ra \<Rightarrow> Some c)"

fun spec_status :: "error_code \<Rightarrow> nat" where
  \<comment> \<open>the status table of the specification\<close>
  "spec_status INVALID_PROMPT = 400"
| "spec_status PROMPT_TOO_LONG = 400"
| "spec_status INVALID_REQUEST = 400"
| "spec_status AUTHENTICATION_ERROR = 401"
| "spec_status RATE_LIMIT_EXCEEDED = 429"
| "spec_status TIMEOUT = 504"
| "spec_status INTERNAL_ERROR = 500"
| "spec_status UNKNOWN_ERROR = 500"

definition marker_line :: "jsstring \<Rightarrow> bool" where
  \<comment> \<open>the line starts with one of the three markers\<close>
  "marker_line l = (case l of [] \<Rightarrow> False | c # rest \<Rightarrow> c = bullet \<or> c = hyphen \<or> c = star)"

definition strip_marker :: "jsstring \<Rightarrow> jsstring" where
  \<comment> \<open>the line without its first character and the white space that follows it\<close>
  "strip_marker l = dropWhile isWhiteSpace (tl l)"

fun field :: "jsval \<Rightarrow> jsstring \<Rightarrow> jsval" where
  "field (JObj props) k = (case map_of props k of Some v \<Rightarrow> v | None \<Rightarrow> JUndefined)"
| "field v k = JUndefined"

definition merged :: "jsval \<Rightarrow> jsstring \<Rightarrow> mobile_summary" where
  \<comment> \<open>the merge of a candidate with the defaults, each field kept when it is truthy\<close>
  "merged cand text =
     \<lparr> summary_points =
         (if truthy (field cand (js ''summary_points'')) then field cand (js ''summary_points'')
          else JArr [JStr (js ''Response received'')]),
       detailed_flow =
         (if truthy (field cand (js ''detailed_flow'')) then field cand (js ''detailed_flow'')
          else JStr (take 200 text @ ellipsis)),
       code_snippets = field cand (js ''code_snippets''),
       confidence =
         (if truthy (field cand (js ''confidence'')) then field cand (js ''confidence'')
          else JNum (8 / 10)),
       mobile_optimized = True \<rparr>"

definition heuristic :: "jsstring \<Rightarrow> jsval" where
  \<comment> \<open>the candidate of the heuristic stage\<close>
  "heuristic text = response_obj (parseTextResponse text)"


fun is_text :: "jsval \<Rightarrow> bool" where
  "is_text (JStr s) = True"
| "is_text v = False"

definition one_to_five :: "jsval \<Rightarrow> bool" where
  \<comment> \<open>a list of one to five strings\<close>
  "one_to_five v =
     (case v of
        JArr xs \<Rightarrow> list_all is_text xs \<and> 1 \<le> length xs \<and> length xs \<le> 5
      | other \<Rightarrow> False)"

definition text_payload :: "jsstring \<Rightarrow> payload" where
  \<comment> \<open>a payload whose first content block holds the text\<close>
  "text_payload text = Payload (Some [Block (Some text)])"

definition rejecting :: "axios_error \<Rightarrow> upstream_request \<Rightarrow> upstream_outcome" where
  \<comment> \<open>an upstream that fails every request with the given error\<close>
  "rejecting e request = Rejected e"

definition resolving :: "block list option \<Rightarrow> upstream_request \<Rightarrow> upstream_outcome" where
  \<comment> \<open>an upstream that answers every request with the given content\<close>
  "resolving content request = Resolved content"

section \<open>Sample inputs\<close>

definition hello_body :: request_body where
  "hello_body =
     \<lparr> prompt = JStr (js ''hello''), temperature = JUndefined, max_tokens = JUndefined,
       top_p = JUndefined \<rparr>"

definition unavailable :: axios_error where
  \<comment> \<open>the upstream answered with status 503\<close>
  "unavailable =
     \<lparr> response = Some \<lparr> resp_status = 503, resp_headers = Map.empty \<rparr>,
       code = None, message = Some (js ''Request failed with status code 503'') \<rparr>"

definition timed_out :: axios_error where
  \<comment> \<open>the request was aborted at the timeout: no response\<close>
  "timed_out =
     \<lparr> response = None, code = Some (js ''ECONNABORTED''),
       message = Some (js ''timeout of 30000ms exceeded'') \<rparr>"

definition bullet_example :: jsstring where
  "bullet_example =
     [bullet] @ js '' A'' @ [0x0A] @ [bullet] @ js '' B'' @ [0x0A] @
     js ''Some long explanatory line here that exceeds twenty chars'' @ [0x0A] @
     [bullet] @ js '' C''"

definition plain_text :: jsstring where
  "plain_text = js ''hello world''"

definition empty_points_text :: jsstring where
  \<open>empty_points_text = js ''{"summary_points": [], "detailed_flow": "Nothing to report"}''\<close>

definition six_points_text :: jsstring where
  \<open>six_points_text = js ''{"summary_points": ["1", "2", "3", "4", "5", "6"]}''\<close>


definition one_point_text :: jsstring where
  \<open>one_point_text = js ''{"summary_points": ["only"], "confidence": 0.25}''\<close>

definition zero_confidence_text :: jsstring where
  \<open>zero_confidence_text = js ''{"summary_points": ["a"], "detailed_flow": "b", "confidence": 0}''\<close>

definition full_shape_text :: jsstring where
  \<open>full_shape_text =
     js ''{"summary_points": ["a", "b"], "detailed_flow": "because", "code_snippets": ["x = 1"], "confidence": 0.9}''\<close>

definition null_text :: jsstring where
  "null_text = js ''null''"

definition long_line :: jsstring where
  "long_line = replicate 300 0x61"

definition short_lines :: jsstring where
  "short_lines = concat (replicate 15 (replicate 19 0x61 @ [0x0A]))"

section \<open>Auxiliary lemmas\<close>

subsection \<open>Numbers that are zero as doubles\<close>

lemma is_zero_double_0: "is_zero_double 0"
  by (simp add: is_zero_double_def)

lemma half_subnormal_small: "(1::rat) / 2 ^ 1075 < 1 / 1024"
proof -
  have "(2::rat) ^ 10 < 2 ^ 1075"
    by (rule power_strict_increasing) simp_all
  then show ?thesis
    by (simp add: field_simps)
qed

lemma not_is_zero_double: "1 / 1024 \<le> \<bar>n\<bar> \<Longrightarrow> \<not> is_zero_double n"
  using half_subnormal_small by (simp add: is_zero_double_def)

lemma is_zero_double_code [code]:
  "is_zero_double n =
     (if n = 0 then True else if 1 / 1024 \<le> \<bar>n\<bar> then False else \<bar>n\<bar> \<le> 1 / 2 ^ 1075)"
  using not_is_zero_double [of n] by (auto simp: is_zero_double_def)

subsection \<open>parseInt on decimal digits\<close>

lemma length_js: "length (js s) = length s"
  by (simp add: js_def)







lemma js_nonempty: "js (c # s) \<noteq> []"
  by (simp add: js_def)



subsection \<open>The loop of parseTextResponse\<close>

lemma startsWith_single: "startsWith l [c] \<longleftrightarrow> (\<exists>rest. l = c # rest)"
  by (cases l) (auto simp: startsWith_def)

lemma marker_line_startsWith:
  "(startsWith l [bullet] \<or> startsWith l [hyphen] \<or> startsWith l [star]) \<longleftrightarrow> marker_line l"
  by (cases l) (auto simp: startsWith_single marker_line_def)

lemma replace_marker_strip: "marker_line l \<Longrightarrow> replace_marker l = strip_marker l"
  by (cases l) (auto simp: marker_line_def replace_marker_def strip_marker_def)

lemma marker_not_space: "c = bullet \<or> c = hyphen \<or> c = star \<Longrightarrow> \<not> isWhiteSpace c"
  by (auto simp: bullet_def hyphen_def star_def isWhiteSpace_def)

lemma str_trim_empty: "str_trim s = [] \<longleftrightarrow> (\<forall>c \<in> set s. isWhiteSpace c)"
proof
  assume "str_trim s = []"
  then have "dropWhile isWhiteSpace (rev (dropWhile isWhiteSpace s)) = []"
    by (simp add: str_trim_def)
  then have "\<forall>c \<in> set (dropWhile isWhiteSpace s). isWhiteSpace c"
    by (simp add: dropWhile_eq_Nil_conv)
  then have "dropWhile isWhiteSpace s = []"
    by (metis dropWhile_eq_Nil_conv dropWhile_idem)
  then show "\<forall>c \<in> set s. isWhiteSpace c"
    by (simp add: dropWhile_eq_Nil_conv)
next
  assume "\<forall>c \<in> set s. isWhiteSpace c"
  then show "str_trim s = []"
    by (auto simp: str_trim_def dest: set_dropWhileD)
qed

lemma find_Some_set: "find P xs = Some x \<Longrightarrow> x \<in> set xs"
  by (induction xs) (auto split: if_splits)

lemma marker_line_not_blank: "marker_line l \<Longrightarrow> str_trim l \<noteq> []"
  using marker_not_space by (cases l) (auto simp: marker_line_def str_trim_empty)

lemma scan_lines_points:
  "fst (scan_lines ls (sp, df)) =
     sp @ map (\<lambda>l. str_trim (strip_marker l)) (filter marker_line ls)"
proof (induction ls arbitrary: sp df)
  case Nil
  show ?case by simp
next
  case (Cons l ls)
  show ?case
  proof (cases "marker_line l")
    case True
    then show ?thesis
      using Cons.IH [of "sp @ [str_trim (replace_marker l)]" df]
      by (simp add: marker_line_startsWith replace_marker_strip)
  next
    case False
    then show ?thesis
      using Cons.IH [of sp "str_trim l"] Cons.IH [of sp df]
      by (simp add: marker_line_startsWith)
  qed
qed

lemma scan_lines_flow:
  "\<forall>l \<in> set ls. str_trim l \<noteq> [] \<Longrightarrow>
   snd (scan_lines ls (sp, df)) =
     (if df \<noteq> [] then df
      else case find (\<lambda>l. \<not> marker_line l \<and> 20 < length l) ls of
             None \<Rightarrow> []
           | Some l \<Rightarrow> str_trim l)"
proof (induction ls arbitrary: sp df)
  case Nil
  show ?case by simp
next
  case (Cons l ls)
  from Cons.prems have rest: "\<forall>l \<in> set ls. str_trim l \<noteq> []" and l: "str_trim l \<noteq> []"
    by simp_all
  show ?case
  proof (cases "marker_line l")
    case True
    then show ?thesis
      using Cons.IH [OF rest, of "sp @ [str_trim (replace_marker l)]" df]
      by (simp add: marker_line_startsWith)
  next
    case no_marker: False
    show ?thesis
    proof (cases "20 < length l \<and> df = []")
      case True
      with no_marker l show ?thesis
        using Cons.IH [OF rest, of sp "str_trim l"]
        by (simp add: marker_line_startsWith)
    next
      case False
      with no_marker show ?thesis
        using Cons.IH [OF rest, of sp df]
        by (auto simp: marker_line_startsWith)
    qed
  qed
qed

lemma filter_marker_nonblank:
  "filter (\<lambda>l. str_trim l \<noteq> [] \<and> marker_line l) ls = filter marker_line ls"
  by (rule filter_cong) (auto simp: marker_line_not_blank)

lemma parseTextResponse_points:
  "tr_summary_points (parseTextResponse text) =
     (if filter marker_line (str_split text) = [] then [substring text 0 50 @ ellipsis]
      else take 5 (map (\<lambda>l. str_trim (strip_marker l)) (filter marker_line (str_split text))))"
proof -
  obtain sp df where s: "scan_lines (filter (\<lambda>l. str_trim l \<noteq> []) (str_split text)) ([], []) = (sp, df)"
    by (cases "scan_lines (filter (\<lambda>l. str_trim l \<noteq> []) (str_split text)) ([], [])")
  from scan_lines_points [of "filter (\<lambda>l. str_trim l \<noteq> []) (str_split text)" "[]" "[]"] s
  have "sp = map (\<lambda>l. str_trim (strip_marker l)) (filter marker_line (str_split text))"
    by (simp add: filter_marker_nonblank)
  with s show ?thesis
    by (simp add: parseTextResponse_def Let_def)
qed

lemma parseTextResponse_flow:
  "tr_detailed_flow (parseTextResponse text) =
     (case find (\<lambda>l. \<not> marker_line l \<and> 20 < length l)
             (filter (\<lambda>l. str_trim l \<noteq> []) (str_split text)) of
        None \<Rightarrow> substring text 0 200 @ ellipsis
      | Some l \<Rightarrow> str_trim l)"
proof -
  let ?ls = "filter (\<lambda>l. str_trim l \<noteq> []) (str_split text)"
  obtain sp df where s: "scan_lines ?ls ([], []) = (sp, df)"
    by (cases "scan_lines ?ls ([], [])")
  have nb: "\<forall>l \<in> set ?ls. str_trim l \<noteq> []"
    by simp
  from scan_lines_flow [OF nb, of "[]" "[]"] s
  have df: "df = (case find (\<lambda>l. \<not> marker_line l \<and> 20 < length l) ?ls of
             None \<Rightarrow> [] | Some l \<Rightarrow> str_trim l)"
    by simp
  show ?thesis
  proof (cases "find (\<lambda>l. \<not> marker_line l \<and> 20 < length l) ?ls")
    case None
    with df s show ?thesis
      by (simp add: parseTextResponse_def Let_def)
  next
    case (Some l)
    then have "l \<in> set ?ls"
      by (rule find_Some_set)
    then have "str_trim l \<noteq> []"
      by simp
    with Some df s show ?thesis
      by (simp add: parseTextResponse_def Let_def)
  qed
qed

lemma parseTextResponse_confidence: "tr_confidence (parseTextResponse text) = 8 / 10"
  by (simp add: parseTextResponse_def Let_def split: prod.splits)

lemma bullet_example_value:
  "parseTextResponse bullet_example =
     \<lparr> tr_summary_points = [js ''A'', js ''B'', js ''C''],
       tr_detailed_flow = js ''Some long explanatory line here that exceeds twenty chars'',
       tr_confidence = 8 / 10 \<rparr>"
  by code_simp

lemma bullet_example_format:
  "formatForMobile (text_payload bullet_example) =
     \<lparr> summary_points = JArr [JStr (js ''A''), JStr (js ''B''), JStr (js ''C'')],
       detailed_flow = JStr (js ''Some long explanatory line here that exceeds twenty chars''),
       code_snippets = JUndefined,
       confidence = JNum (8 / 10),
       mobile_optimized = True \<rparr>"
  by code_simp

subsection \<open>The values of JSON.parse\<close>

lemma get_prop_field: "v \<noteq> JNull \<Longrightarrow> v \<noteq> JUndefined \<Longrightarrow> get_prop v k = Inr (field v k)"
  by (cases v) simp_all

lemma parse_shapes:
  "\<forall>v r. parse_value cs = Some (v, r) \<longrightarrow> v \<noteq> JUndefined"
  "\<forall>v r. parse_elements es cs1 = Some (v, r) \<longrightarrow> (\<exists>xs. v = JArr xs)"
  "\<forall>v r. parse_members ms cs2 = Some (v, r) \<longrightarrow> (\<exists>props. v = JObj props)"
proof (induction cs and es cs1 and ms cs2 rule: parse_value_parse_elements_parse_members.induct)
  case (1 cs)
  show ?case
  proof (intro allI impI)
    fix v r assume p: "parse_value cs = Some (v, r)"
    then obtain c rest where sk: "skip_ws cs = c # rest"
      by (cases "skip_ws cs") simp_all
    note ps = p [unfolded parse_value.simps [of cs] sk, simplified]
    consider (obj) "c = 0x7B" | (arr) "c \<noteq> 0x7B" "c = 0x5B" | (other) "c \<noteq> 0x7B" "c \<noteq> 0x5B"
      by blast
    then show "v \<noteq> JUndefined"
    proof cases
      case obj
      with ps obtain d r' where sk2: "skip_ws rest = d # r'"
        by (cases "skip_ws rest") simp_all
      show ?thesis
      proof (cases "d = 0x7D")
        case True
        with ps obj sk2 show ?thesis by auto
      next
        case False
        with ps obj sk2 have "parse_members [] rest = Some (v, r)" by simp
        with "1.IH"(1) [OF sk obj sk2 False] show ?thesis by auto
      qed
    next
      case arr
      with ps obtain d r' where sk2: "skip_ws rest = d # r'"
        by (cases "skip_ws rest") simp_all
      show ?thesis
      proof (cases "d = 0x5D")
        case True
        with ps arr sk2 show ?thesis by auto
      next
        case False
        with ps arr sk2 have "parse_elements [] rest = Some (v, r)" by simp
        with "1.IH"(2) [OF sk arr sk2 False] show ?thesis by auto
      qed
    next
      case other
      with ps show ?thesis
        by (auto split: if_splits)
    qed
  qed
next
  case (2 acc cs)
  show ?case
  proof (intro allI impI)
    fix v r assume p: "parse_elements acc cs = Some (v, r)"
    note ps = p [unfolded parse_elements.simps [of acc cs]]
    from ps obtain v1 r1 where pv: "parse_value cs = Some (v1, r1)"
      by (cases "parse_value cs") auto
    from ps pv obtain d r' where sk: "skip_ws r1 = d # r'"
      by (cases "skip_ws r1") simp_all
    show "\<exists>xs. v = JArr xs"
    proof (cases "d = 0x2C")
      case True
      with ps pv sk have "parse_elements (acc @ [v1]) r' = Some (v, r)" by simp
      with "2.IH"(2) [OF pv refl sk True] show ?thesis by blast
    next
      case False
      with ps pv sk show ?thesis by (auto split: if_splits)
    qed
  qed
next
  case (3 acc cs)
  show ?case
  proof (intro allI impI)
    fix v r assume p: "parse_members acc cs = Some (v, r)"
    note ps = p [unfolded parse_members.simps [of acc cs]]
    from ps obtain q r1 where sk1: "skip_ws cs = q # r1"
      by (cases "skip_ws cs") simp_all
    from ps sk1 have q: "q = 0x22" by (simp split: if_splits)
    from ps sk1 q obtain k r2 where pk: "parse_chars [] r1 = Some (k, r2)"
      by (cases "parse_chars [] r1") auto
    from ps sk1 q pk obtain colon r3 where sk2: "skip_ws r2 = colon # r3"
      by (cases "skip_ws r2") simp_all
    from ps sk1 q pk sk2 have colon: "colon = 0x3A" by (simp split: if_splits)
    from ps sk1 q pk sk2 colon obtain v1 r4 where pv: "parse_value r3 = Some (v1, r4)"
      by (cases "parse_value r3") auto
    from ps sk1 q pk sk2 colon pv obtain d r5 where sk3: "skip_ws r4 = d # r5"
      by (cases "skip_ws r4") simp_all
    show "\<exists>props. v = JObj props"
    proof (cases "d = 0x2C")
      case True
      with ps sk1 q pk sk2 colon pv sk3 have "parse_members (AList.update k v1 acc) r5 = Some (v, r)"
        by simp
      with "3.IH"(2) [OF sk1 q pk refl sk2 colon pv refl sk3 True] show ?thesis by blast
    next
      case False
      with ps sk1 q pk sk2 colon pv sk3 show ?thesis by (auto split: if_splits)
    qed
  qed
qed

lemma JSON_parse_defined: "JSON_parse text \<noteq> Inr JUndefined"
  using parse_shapes(1) [of "text"]
  by (auto simp: JSON_parse_def split: option.splits if_splits)

subsection \<open>The paths through formatForMobile\<close>

lemma substring_0: "substring s 0 n = take n s"
  by (simp add: substring_def)

lemma JSON_parse_undefined: "JSON_parse (js ''undefined'') = Inl SyntaxError"
  by code_simp

lemma format_extract_fault: "extract_text p = Inl e \<Longrightarrow> format_try p = Inl e"
  by (simp add: format_try_def try_bind_def)

lemma format_no_text: "extract_text p = Inr None \<Longrightarrow> format_try p = Inl TypeError"
  by (simp add: format_try_def try_bind_def parse_content_def ToString_def JSON_parse_undefined
      call_parseTextResponse_def)

lemma format_null:
  "extract_text p = Inr (Some t) \<Longrightarrow> JSON_parse t = Inr JNull \<Longrightarrow> format_try p = Inl TypeError"
  by (simp add: format_try_def try_bind_def parse_content_def ToString_def)

lemma format_candidate:
  assumes "extract_text p = Inr (Some t)" and "parse_content (Some t) = Inr cand"
    and "cand \<noteq> JNull" and "cand \<noteq> JUndefined"
  shows "format_try p = Inr (merged cand t)"
  using assms
  by (simp add: format_try_def try_bind_def get_prop_field merged_def js_or_def content_prefix_def
      substring_0)

lemma parse_content_json: "JSON_parse t = Inr v \<Longrightarrow> parse_content (Some t) = Inr v"
  by (simp add: parse_content_def ToString_def)

lemma parse_content_heuristic: "JSON_parse t = Inl e \<Longrightarrow> parse_content (Some t) = Inr (heuristic t)"
  by (simp add: parse_content_def ToString_def call_parseTextResponse_def heuristic_def)

lemma heuristic_fields:
  "field (heuristic t) (js ''summary_points'') = JArr (map JStr (tr_summary_points (parseTextResponse t)))"
  "field (heuristic t) (js ''detailed_flow'') = JStr (tr_detailed_flow (parseTextResponse t))"
  "field (heuristic t) (js ''code_snippets'') = JUndefined"
  "field (heuristic t) (js ''confidence'') = JNum (8 / 10)"
  by (simp_all add: heuristic_def response_obj_def js_def parseTextResponse_confidence)

lemma heuristic_points_length:
  "1 \<le> length (tr_summary_points (parseTextResponse t)) \<and>
   length (tr_summary_points (parseTextResponse t)) \<le> 5"
proof (cases "filter marker_line (str_split t) = []")
  case True
  then show ?thesis
    by (simp add: parseTextResponse_points)
next
  case False
  then have "0 < length (filter marker_line (str_split t))"
    by simp
  then show ?thesis
    using False by (simp add: parseTextResponse_points Suc_le_eq)
qed

lemma heuristic_flow_nonempty: "tr_detailed_flow (parseTextResponse t) \<noteq> []"
proof (cases "find (\<lambda>l. \<not> marker_line l \<and> 20 < length l)
             (filter (\<lambda>l. str_trim l \<noteq> []) (str_split t))")
  case None
  then show ?thesis
    by (simp add: parseTextResponse_flow ellipsis_def js_def)
next
  case (Some l)
  then have "l \<in> set (filter (\<lambda>l. str_trim l \<noteq> []) (str_split t))"
    by (rule find_Some_set)
  with Some show ?thesis
    by (simp add: parseTextResponse_flow)
qed

lemma eight_tenths_truthy: "truthy (JNum (8 / 10))"
  by (simp add: not_is_zero_double)

lemma merged_heuristic:
  "merged (heuristic t) t =
     \<lparr> summary_points = JArr (map JStr (tr_summary_points (parseTextResponse t))),
       detailed_flow = JStr (tr_detailed_flow (parseTextResponse t)),
       code_snippets = JUndefined,
       confidence = JNum (8 / 10),
       mobile_optimized = True \<rparr>"
  using eight_tenths_truthy
  by (simp add: merged_def heuristic_fields heuristic_flow_nonempty)

lemma heuristic_not_null: "heuristic t \<noteq> JNull" "heuristic t \<noteq> JUndefined"
  by (simp_all add: heuristic_def response_obj_def)

lemma format_paths:
  "(\<exists>e. extract_text p = Inl e) \<and> formatForMobile p = fallback \<or>
   extract_text p = Inr None \<and> formatForMobile p = fallback \<or>
   (\<exists>t. extract_text p = Inr (Some t) \<and> JSON_parse t = Inr JNull \<and> formatForMobile p = fallback) \<or>
   (\<exists>t v. extract_text p = Inr (Some t) \<and> JSON_parse t = Inr v \<and> v \<noteq> JNull \<and>
      format_try p = Inr (merged v t) \<and> formatForMobile p = merged v t) \<or>
   (\<exists>t e. extract_text p = Inr (Some t) \<and> JSON_parse t = Inl e \<and>
      format_try p = Inr (merged (heuristic t) t) \<and> formatForMobile p = merged (heuristic t) t)"
proof (cases "extract_text p")
  case (Inl e)
  then show ?thesis
    by (simp add: formatForMobile_def format_extract_fault)
next
  case (Inr content)
  show ?thesis
  proof (cases content)
    case None
    with Inr show ?thesis
      by (simp add: formatForMobile_def format_no_text)
  next
    case (Some t)
    show ?thesis
    proof (cases "JSON_parse t")
      case (Inl e)
      from Inr Some have ex: "extract_text p = Inr (Some t)"
        by simp
      from format_candidate [OF ex parse_content_heuristic [OF Inl] heuristic_not_null]
      show ?thesis
        using ex Inl by (simp add: formatForMobile_def)
    next
      case v: (Inr v)
      from Inr Some have ex: "extract_text p = Inr (Some t)"
        by simp
      show ?thesis
      proof (cases "v = JNull")
        case True
        with ex v show ?thesis
          by (simp add: formatForMobile_def format_null)
      next
        case False
        from v have "v \<noteq> JUndefined"
          using JSON_parse_defined [of t] by auto
        from format_candidate [OF ex parse_content_json [OF v] False this]
        show ?thesis
          using ex v False by (simp add: formatForMobile_def)
      qed
    qed
  qed
qed

lemma one_to_five_strings:
  "1 \<le> length ps \<and> length ps \<le> 5 \<Longrightarrow> one_to_five (JArr (map JStr ps))"
  by (simp add: one_to_five_def list_all_iff)

lemma extract_text_payload: "extract_text (text_payload t) = Inr (Some t)"
  by (simp add: text_payload_def)

lemma fallback_fields:
  "summary_points fallback = JArr (map JStr [js ''Error processing response''])"
  "confidence fallback = JNum (5 / 10)"
  "mobile_optimized fallback = True"
  by (simp_all add: fallback_def)

lemma merged_fields:
  "summary_points (merged v t) =
     (if truthy (field v (js ''summary_points'')) then field v (js ''summary_points'')
      else JArr (map JStr [js ''Response received'']))"
  "detailed_flow (merged v t) =
     (if truthy (field v (js ''detailed_flow'')) then field v (js ''detailed_flow'')
      else JStr (take 200 t @ ellipsis))"
  "code_snippets (merged v t) = field v (js ''code_snippets'')"
  "confidence (merged v t) =
     (if truthy (field v (js ''confidence'')) then field v (js ''confidence'') else JNum (8 / 10))"
  "mobile_optimized (merged v t) = True"
  by (simp_all add: merged_def)

subsection \<open>The sample inputs\<close>

lemma JSON_parse_hello: "JSON_parse plain_text = Inl SyntaxError"
  by code_simp

lemma JSON_parse_one_point:
  "JSON_parse one_point_text =
     Inr (JObj [(js ''summary_points'', JArr [JStr (js ''only'')]), (js ''confidence'', JNum (1 / 4))])"
  by code_simp

lemma JSON_parse_full_shape:
  "JSON_parse full_shape_text =
     Inr (JObj [(js ''summary_points'', JArr [JStr (js ''a''), JStr (js ''b'')]),
                (js ''detailed_flow'', JStr (js ''because'')),
                (js ''code_snippets'', JArr [JStr (js ''x = 1'')]),
                (js ''confidence'', JNum (9 / 10))])"
  by code_simp

lemma JSON_parse_empty: "JSON_parse [] = Inl SyntaxError"
  by code_simp

lemma find_without_markers:
  "filter marker_line ls = [] \<Longrightarrow>
   find (\<lambda>l. \<not> marker_line l \<and> P l) (filter Q ls) = find P (filter Q ls)"
  by (induction ls) (auto split: if_splits)

lemma long_line_facts:
  "length long_line = 300"
  "JSON_parse long_line = Inl SyntaxError"
  "filter marker_line (str_split long_line) = []"
  by code_simp+

lemma short_lines_facts:
  "length short_lines = 300"
  "JSON_parse short_lines = Inl SyntaxError"
  "filter marker_line (str_split short_lines) = []"
  by code_simp+

section \<open>The response normalizer\<close>

subsection \<open>Totality and the bound on the summary points\<close>

text \<open>
  A text that is valid JSON with six summary points: extraction succeeds, the six points
  come back as parsed, and the list is not one of one to five strings.
\<close>

theorem normalizer_total_counterexample:
  "extract_text (text_payload six_points_text) = Inr (Some six_points_text) \<and>
   summary_points (formatForMobile (text_payload six_points_text)) =
     JArr [JStr (js ''1''), JStr (js ''2''), JStr (js ''3''), JStr (js ''4''), JStr (js ''5''),
           JStr (js ''6'')] \<and>
   \<not> one_to_five (summary_points (formatForMobile (text_payload six_points_text)))"
  by code_simp

text \<open>
  C1 (amended). \<open>formatForMobile\<close> is a total function of the payload: every throw of
  the source is caught, and the record returned has \<open>mobile_optimized = true\<close>. Its
  \<open>summary_points\<close> is a list of one to five strings unless the text is valid JSON whose
  \<open>summary_points\<close> is truthy; such a value is returned as parsed, whatever its type and
  length.
\<close>

theorem normalizer_total:
  "(\<forall>e. format_try p = Inl e \<longrightarrow> formatForMobile p = fallback) \<and>
   (\<forall>r. format_try p = Inr r \<longrightarrow> formatForMobile p = r) \<and>
   mobile_optimized (formatForMobile p) = True \<and>
   ((\<forall>t v. extract_text p = Inr (Some t) \<longrightarrow> JSON_parse t = Inr v \<longrightarrow>
        \<not> truthy (field v (js ''summary_points''))) \<longrightarrow>
      one_to_five (summary_points (formatForMobile p))) \<and>
   (\<forall>t v. extract_text p = Inr (Some t) \<and> JSON_parse t = Inr v \<and>
        truthy (field v (js ''summary_points'')) \<longrightarrow>
      summary_points (formatForMobile p) = field v (js ''summary_points''))"
proof -
  have one: "one_to_five (JArr [JStr s])" for s
    by (simp add: one_to_five_def)
  have caught: "(\<forall>e. format_try p = Inl e \<longrightarrow> formatForMobile p = fallback) \<and>
      (\<forall>r. format_try p = Inr r \<longrightarrow> formatForMobile p = r)"
    by (simp add: formatForMobile_def)
  from format_paths [of p] have "mobile_optimized (formatForMobile p) = True \<and>
   ((\<forall>t v. extract_text p = Inr (Some t) \<longrightarrow> JSON_parse t = Inr v \<longrightarrow>
        \<not> truthy (field v (js ''summary_points''))) \<longrightarrow>
      one_to_five (summary_points (formatForMobile p))) \<and>
   (\<forall>t v. extract_text p = Inr (Some t) \<and> JSON_parse t = Inr v \<and>
        truthy (field v (js ''summary_points'')) \<longrightarrow>
      summary_points (formatForMobile p) = field v (js ''summary_points''))"
  proof (elim disjE exE conjE)
    fix e assume "extract_text p = Inl e" "formatForMobile p = fallback"
    then show ?thesis
      by (simp add: fallback_fields one)
  next
    assume "extract_text p = Inr None" "formatForMobile p = fallback"
    then show ?thesis
      by (simp add: fallback_fields one)
  next
    fix t assume "extract_text p = Inr (Some t)" "JSON_parse t = Inr JNull"
      "formatForMobile p = fallback"
    then show ?thesis
      by (simp add: fallback_fields one)
  next
    fix t v assume "extract_text p = Inr (Some t)" "JSON_parse t = Inr v" "v \<noteq> JNull"
      "format_try p = Inr (merged v t)" "formatForMobile p = merged v t"
    then show ?thesis
      by (simp add: merged_fields one)
  next
    fix t e assume "extract_text p = Inr (Some t)" "JSON_parse t = Inl e"
      "format_try p = Inr (merged (heuristic t) t)" "formatForMobile p = merged (heuristic t) t"
    then show ?thesis
      by (simp add: merged_heuristic one_to_five_strings [OF heuristic_points_length])
  qed
  with caught show ?thesis
    by blast
qed

theorem normalizer_total_witness:
  "mobile_optimized (formatForMobile (text_payload plain_text)) = True \<and>
   one_to_five (summary_points (formatForMobile (text_payload plain_text))) \<and>
   one_to_five (summary_points (formatForMobile (text_payload []))) \<and>
   one_to_five (summary_points (formatForMobile NullPayload)) \<and>
   summary_points (formatForMobile (text_payload one_point_text)) = JArr [JStr (js ''only'')]"
  using normalizer_total [of "text_payload plain_text"]
    normalizer_total [of "text_payload []"]
    normalizer_total [of NullPayload]
    normalizer_total [of "text_payload one_point_text"]
  by (simp add: extract_text_payload JSON_parse_hello JSON_parse_empty JSON_parse_one_point js_def)

subsection \<open>The JSON path\<close>

text \<open>
  A text that is valid JSON of the expected shape, with confidence 0: the confidence
  returned is 0.8.
\<close>

theorem json_round_trip_counterexample:
  "JSON_parse zero_confidence_text =
     Inr (JObj [(js ''summary_points'', JArr [JStr (js ''a'')]),
                (js ''detailed_flow'', JStr (js ''b'')),
                (js ''confidence'', JNum 0)]) \<and>
   confidence (formatForMobile (text_payload zero_confidence_text)) = JNum (8 / 10)"
  by code_simp

text \<open>
  C2 (amended). When the extracted text is valid JSON, an object whose \<open>summary_points\<close>
  is a list of strings and whose \<open>detailed_flow\<close> is a string, \<open>formatForMobile\<close>
  returns \<open>summary_points\<close> unchanged, \<open>detailed_flow\<close> unchanged unless it is the
  empty string (then the first 200 characters of the text and an ellipsis),
  \<open>code_snippets\<close> unchanged (none when omitted), and a numeric \<open>confidence\<close>
  unchanged unless it is zero or omitted (then 0.8).
\<close>

theorem json_round_trip:
  assumes "extract_text p = Inr (Some t)"
    and "JSON_parse t = Inr (JObj props)"
    and "map_of props (js ''summary_points'') = Some (JArr (map JStr pts))"
    and "map_of props (js ''detailed_flow'') = Some (JStr d)"
  shows "summary_points (formatForMobile p) = JArr (map JStr pts) \<and>
         detailed_flow (formatForMobile p) = (if d = [] then JStr (take 200 t @ ellipsis) else JStr d) \<and>
         code_snippets (formatForMobile p) =
           (case map_of props (js ''code_snippets'') of None \<Rightarrow> JUndefined | Some c \<Rightarrow> c) \<and>
         (map_of props (js ''confidence'') = None \<longrightarrow>
            confidence (formatForMobile p) = JNum (8 / 10)) \<and>
         (\<forall>n. map_of props (js ''confidence'') = Some (JNum n) \<longrightarrow>
            confidence (formatForMobile p) = (if is_zero_double n then JNum (8 / 10) else JNum n)) \<and>
         mobile_optimized (formatForMobile p) = True"
proof -
  have "format_try p = Inr (merged (JObj props) t)"
    by (rule format_candidate [OF assms(1) parse_content_json [OF assms(2)]]) simp_all
  then have "formatForMobile p = merged (JObj props) t"
    by (simp add: formatForMobile_def)
  with assms(3,4) show ?thesis
    by (auto simp: merged_fields)
qed

theorem json_round_trip_witness:
  "formatForMobile (text_payload full_shape_text) =
     \<lparr> summary_points = JArr [JStr (js ''a''), JStr (js ''b'')],
       detailed_flow = JStr (js ''because''),
       code_snippets = JArr [JStr (js ''x = 1'')],
       confidence = JNum (9 / 10),
       mobile_optimized = True \<rparr>"
proof -
  have props: "map_of [(js ''summary_points'', JArr [JStr (js ''a''), JStr (js ''b'')]),
                (js ''detailed_flow'', JStr (js ''because'')),
                (js ''code_snippets'', JArr [JStr (js ''x = 1'')]),
                (js ''confidence'', JNum (9 / 10))] (js ''summary_points'')
           = Some (JArr (map JStr [js ''a'', js ''b'']))"
    by (simp add: js_def)
  have flow: "map_of [(js ''summary_points'', JArr [JStr (js ''a''), JStr (js ''b'')]),
                (js ''detailed_flow'', JStr (js ''because'')),
                (js ''code_snippets'', JArr [JStr (js ''x = 1'')]),
                (js ''confidence'', JNum (9 / 10))] (js ''detailed_flow'')
           = Some (JStr (js ''because''))"
    by (simp add: js_def)
  from json_round_trip [OF extract_text_payload JSON_parse_full_shape props flow]
  show ?thesis
    by (cases "formatForMobile (text_payload full_shape_text)")
      (simp add: js_def not_is_zero_double)
qed

subsection \<open>The merge rule\<close>

text \<open>
  A candidate from the JSON stage whose \<open>summary_points\<close> is present and empty: the
  output keeps the empty list, it does not take the default.
\<close>

theorem merge_rule_counterexample:
  "parse_content (Some empty_points_text) =
     Inr (JObj [(js ''summary_points'', JArr []), (js ''detailed_flow'', JStr (js ''Nothing to report''))]) \<and>
   summary_points (formatForMobile (text_payload empty_points_text)) = JArr [] \<and>
   summary_points (formatForMobile (text_payload empty_points_text))
     \<noteq> JArr [JStr (js ''Response received'')]"
  by code_simp

text \<open>
  C3 (amended). For every candidate of the JSON or the heuristic stage other than
  \<open>null\<close>, each of \<open>summary_points\<close>, \<open>detailed_flow\<close> and \<open>confidence\<close> is the
  candidate's value when that value is truthy (not \<open>undefined\<close>, \<open>null\<close>, \<open>false\<close>,
  zero or the empty string; an empty list is truthy) and its default otherwise: the list
  of the one string "Response received", the first 200 characters of the text and an
  ellipsis, 0.8. \<open>code_snippets\<close> is the candidate's value, \<open>undefined\<close> when the
  candidate has none, and \<open>mobile_optimized\<close> is true.
\<close>

theorem merge_rule:
  assumes "extract_text p = Inr (Some t)"
    and "parse_content (Some t) = Inr cand"
    and "cand \<noteq> JNull"
  shows "(JSON_parse t = Inr cand \<or> cand = response_obj (parseTextResponse t)) \<and>
         summary_points (formatForMobile p) =
           (if truthy (field cand (js ''summary_points'')) then field cand (js ''summary_points'')
            else JArr [JStr (js ''Response received'')]) \<and>
         detailed_flow (formatForMobile p) =
           (if truthy (field cand (js ''detailed_flow'')) then field cand (js ''detailed_flow'')
            else JStr (take 200 t @ ellipsis)) \<and>
         confidence (formatForMobile p) =
           (if truthy (field cand (js ''confidence'')) then field cand (js ''confidence'')
            else JNum (8 / 10)) \<and>
         code_snippets (formatForMobile p) = field cand (js ''code_snippets'') \<and>
         mobile_optimized (formatForMobile p) = True"
proof -
  have src: "JSON_parse t = Inr cand \<or> cand = response_obj (parseTextResponse t)"
    using assms(2)
    by (auto simp: parse_content_def ToString_def call_parseTextResponse_def split: sum.splits)
  then have "cand \<noteq> JUndefined"
    using JSON_parse_defined [of t] by (auto simp: response_obj_def)
  from format_candidate [OF assms this]
  have "formatForMobile p = merged cand t"
    by (simp add: formatForMobile_def)
  with src show ?thesis
    by (simp add: merged_fields)
qed

theorem merge_rule_witness:
  "summary_points (formatForMobile (text_payload one_point_text)) = JArr [JStr (js ''only'')] \<and>
   detailed_flow (formatForMobile (text_payload one_point_text)) = JStr (take 200 one_point_text @ ellipsis) \<and>
   confidence (formatForMobile (text_payload one_point_text)) = JNum (1 / 4) \<and>
   code_snippets (formatForMobile (text_payload one_point_text)) = JUndefined"
proof -
  have "JObj [(js ''summary_points'', JArr [JStr (js ''only'')]), (js ''confidence'', JNum (1 / 4))] \<noteq> JNull"
    by simp
  from merge_rule [OF extract_text_payload parse_content_json [OF JSON_parse_one_point] this]
  show ?thesis
    by (simp add: js_def not_is_zero_double)
qed

subsection \<open>The fallback record\<close>

text \<open>
  The text \<open>null\<close>: extraction succeeds, the text is valid JSON, and the fallback record
  is returned, since reading a property of \<open>null\<close> throws inside the \<open>try\<close> block.
\<close>

theorem fallback_exactly_counterexample:
  "extract_text (text_payload null_text) = Inr (Some null_text) \<and>
   formatForMobile (text_payload null_text) = fallback"
  by code_simp

text \<open>
  C4 (amended). The \<open>try\<close> block of \<open>formatForMobile\<close> throws, and the fallback record
  is returned, exactly when the extraction of the text faults, or the first block has no
  text, or the text is JSON for \<open>null\<close>. For every other payload the result is the merge of
  the candidate of the JSON stage (the text is valid JSON) or of the heuristic stage (it is
  not).
\<close>

theorem fallback_exactly:
  "((\<exists>e. format_try p = Inl e) \<longleftrightarrow>
      (\<exists>e. extract_text p = Inl e) \<or> extract_text p = Inr None \<or>
      (\<exists>t. extract_text p = Inr (Some t) \<and> JSON_parse t = Inr JNull)) \<and>
   ((\<exists>e. format_try p = Inl e) \<longrightarrow> formatForMobile p = fallback) \<and>
   (\<forall>t. extract_text p = Inr (Some t) \<and> JSON_parse t \<noteq> Inr JNull \<longrightarrow>
      (\<exists>cand. (JSON_parse t = Inr cand \<or>
               (\<exists>e. JSON_parse t = Inl e) \<and> cand = response_obj (parseTextResponse t)) \<and>
              format_try p = Inr (merged cand t) \<and> formatForMobile p = merged cand t))"
proof -
  from format_paths [of p] show ?thesis
  proof (elim disjE exE conjE)
    fix e assume "extract_text p = Inl e" "formatForMobile p = fallback"
    then show ?thesis
      by (simp add: format_extract_fault)
  next
    assume "extract_text p = Inr None" "formatForMobile p = fallback"
    then show ?thesis
      by (simp add: format_no_text)
  next
    fix t assume "extract_text p = Inr (Some t)" "JSON_parse t = Inr JNull"
      "formatForMobile p = fallback"
    then show ?thesis
      by (simp add: format_null)
  next
    fix t v assume "extract_text p = Inr (Some t)" "JSON_parse t = Inr v" "v \<noteq> JNull"
      "format_try p = Inr (merged v t)" "formatForMobile p = merged v t"
    then show ?thesis
      by simp
  next
    fix t e assume "extract_text p = Inr (Some t)" "JSON_parse t = Inl e"
      "format_try p = Inr (merged (heuristic t) t)" "formatForMobile p = merged (heuristic t) t"
    then show ?thesis
      by (simp add: heuristic_def)
  qed
qed

theorem fallback_exactly_witness:
  "formatForMobile (Payload (Some [])) = fallback \<and>
   formatForMobile (Payload (Some [Block None])) = fallback \<and>
   formatForMobile (text_payload null_text) = fallback \<and>
   formatForMobile (text_payload plain_text) = merged (response_obj (parseTextResponse plain_text)) plain_text"
proof -
  have null: "JSON_parse null_text = Inr JNull"
    by code_simp
  show ?thesis
    using fallback_exactly [of "Payload (Some [])"] fallback_exactly [of "Payload (Some [Block None])"]
      fallback_exactly [of "text_payload null_text"] fallback_exactly [of "text_payload plain_text"]
    by (simp add: extract_text_payload null JSON_parse_hello)
qed

subsection \<open>The bullet heuristic\<close>

text \<open>
  C8. The summary points of \<open>parseTextResponse\<close> are made from the lines of the text that
  start with one of the markers, in order and at most five, each without its marker, the
  white space after it and the white space at its end (when no line starts with a marker,
  the one point is the first 50 characters of the text and an ellipsis). For the example
  text of the specification the points are A, B, C and the detailed flow is the
  explanatory line, from \<open>parseTextResponse\<close> and from \<open>formatForMobile\<close>.
\<close>

theorem bullet_heuristic:
  "tr_summary_points (parseTextResponse t) =
     (if filter marker_line (str_split t) = [] then [take 50 t @ ellipsis]
      else take 5 (map (\<lambda>l. str_trim (strip_marker l)) (filter marker_line (str_split t)))) \<and>
   parseTextResponse bullet_example =
     \<lparr> tr_summary_points = [js ''A'', js ''B'', js ''C''],
       tr_detailed_flow = js ''Some long explanatory line here that exceeds twenty chars'',
       tr_confidence = 8 / 10 \<rparr> \<and>
   formatForMobile (text_payload bullet_example) =
     \<lparr> summary_points = JArr [JStr (js ''A''), JStr (js ''B''), JStr (js ''C'')],
       detailed_flow = JStr (js ''Some long explanatory line here that exceeds twenty chars''),
       code_snippets = JUndefined,
       confidence = JNum (8 / 10),
       mobile_optimized = True \<rparr>"
  using parseTextResponse_points [of t] bullet_example_value bullet_example_format
  by (simp add: substring_0)

subsection \<open>Truncation\<close>

text \<open>
  A text of 300 letters on one line, not JSON, without markers: the detailed flow is the
  whole line, not its first 200 characters and an ellipsis.
\<close>

theorem truncation_counterexample:
  "length long_line = 300 \<and>
   JSON_parse long_line = Inl SyntaxError \<and>
   filter marker_line (str_split long_line) = [] \<and>
   detailed_flow (formatForMobile (text_payload long_line)) = JStr long_line \<and>
   detailed_flow (formatForMobile (text_payload long_line)) \<noteq> JStr (take 200 long_line @ ellipsis)"
  by code_simp

text \<open>
  C9 (amended). For a text of 300 characters that is not valid JSON and has no line
  starting with a marker, \<open>summary_points\<close> is the one string made of the first 50
  characters and an ellipsis; \<open>detailed_flow\<close> is the first non-blank line of more than
  20 characters, trimmed, and only when there is no such line the first 200 characters
  and an ellipsis.
\<close>

theorem truncation:
  assumes "JSON_parse t = Inl e"
    and "length t = 300"
    and "filter marker_line (str_split t) = []"
  shows "summary_points (formatForMobile (text_payload t)) = JArr [JStr (take 50 t @ ellipsis)] \<and>
         length (take 50 t) = 50 \<and>
         detailed_flow (formatForMobile (text_payload t)) =
           JStr (case find (\<lambda>l. 20 < length l) (filter (\<lambda>l. str_trim l \<noteq> []) (str_split t)) of
                   None \<Rightarrow> take 200 t @ ellipsis
                 | Some l \<Rightarrow> str_trim l) \<and>
         length (take 200 t) = 200"
proof -
  have "format_try (text_payload t) = Inr (merged (heuristic t) t)"
    by (rule format_candidate [OF extract_text_payload parse_content_heuristic [OF assms(1)]
          heuristic_not_null])
  then have "formatForMobile (text_payload t) = merged (heuristic t) t"
    by (simp add: formatForMobile_def)
  then show ?thesis
    using assms(2,3)
    by (simp add: merged_heuristic parseTextResponse_points parseTextResponse_flow
        find_without_markers substring_0 split: option.splits)
qed

theorem truncation_witness:
  "detailed_flow (formatForMobile (text_payload short_lines)) = JStr (take 200 short_lines @ ellipsis) \<and>
   summary_points (formatForMobile (text_payload short_lines)) = JArr [JStr (take 50 short_lines @ ellipsis)] \<and>
   summary_points (formatForMobile (text_payload long_line)) = JArr [JStr (take 50 long_line @ ellipsis)]"
proof -
  have "find (\<lambda>l. 20 < length l) (filter (\<lambda>l. str_trim l \<noteq> []) (str_split short_lines)) = None"
    by code_simp
  with truncation [OF short_lines_facts(2,1,3)] truncation [OF long_line_facts(2,1,3)]
  show ?thesis
    by simp
qed

subsection \<open>The confidence\<close>




section \<open>Upstream failure classification\<close>



section \<open>Error replies of the endpoint\<close>

text \<open>
  An upstream reply with status 503 makes \<open>callClaude\<close> throw an UNKNOWN_ERROR; the reply
  of the endpoint carries the code INTERNAL_ERROR, not the kind of the error.
\<close>

theorem error_kind_in_reply_counterexample:
  "fst (callClaude (rejecting unavailable) (js ''hello'')
          \<lparr> opt_temperature = JNum (3 / 10), opt_max_tokens = JNum 800, opt_top_p = JNum (9 / 10) \<rparr>)
     = Inl \<lparr> err_code = UNKNOWN_ERROR,
             err_message = js ''Request failed with status code 503'',
             retryAfter = None \<rparr> \<and>
   reply_code (fst (query_handler (rejecting unavailable) hello_body)) = Some INTERNAL_ERROR \<and>
   reply_status (fst (query_handler (rejecting unavailable) hello_body)) = 500"
  by (simp add: callClaude_def callClaude_catch_def query_handler_def query_catch_def
      reply_code_def default_to_def js_nonempty length_js Let_def rejecting_def unavailable_def
      hello_body_def)

text \<open>
  C6 (amended). Every error reply of the endpoint has the status that the specification
  maps from the code it carries. For a rejected upstream call the status is the one mapped
  from the kind of the classified error, and the code of the reply is that kind, except
  that an UNKNOWN_ERROR is reported with the code INTERNAL_ERROR.
\<close>

theorem error_reply_mapping:
  "(\<forall>msg c ra. reply_body (fst (query_handler axios_post body)) = Failure msg c ra \<longrightarrow>
      reply_status (fst (query_handler axios_post body)) = spec_status c) \<and>
   (prompt body = JStr p \<and> p \<noteq> [] \<and> length p \<le> 10000 \<longrightarrow>
      reply_status (fst (query_handler (rejecting e) body))
        = spec_status (err_code (callClaude_catch e)) \<and>
      reply_code (fst (query_handler (rejecting e) body))
        = Some (if err_code (callClaude_catch e) = UNKNOWN_ERROR then INTERNAL_ERROR
                else err_code (callClaude_catch e)))"
proof -
  have catch: "reply_body (query_catch ce) = Failure msg c ra \<Longrightarrow>
      reply_status (query_catch ce) = spec_status c" for ce msg c ra
    by (auto simp: query_catch_def split: if_splits)
  have all: "reply_body (fst (query_handler axios_post body)) = Failure msg c ra \<Longrightarrow>
      reply_status (fst (query_handler axios_post body)) = spec_status c" for msg c ra
    by (cases "prompt body")
      (auto simp: query_handler_def invalid_prompt_def prompt_too_long_def callClaude_def Let_def
        catch split: if_splits upstream_outcome.splits)
  have rejected: "prompt body = JStr p \<Longrightarrow> p \<noteq> [] \<Longrightarrow> length p \<le> 10000 \<Longrightarrow>
      fst (query_handler (rejecting e) body) = query_catch (callClaude_catch e)"
    by (simp add: query_handler_def callClaude_def Let_def rejecting_def)
  have kinds: "reply_status (query_catch (callClaude_catch e)) = spec_status (err_code (callClaude_catch e)) \<and>
      reply_code (query_catch (callClaude_catch e))
        = Some (if err_code (callClaude_catch e) = UNKNOWN_ERROR then INTERNAL_ERROR
                else err_code (callClaude_catch e))"
    by (auto simp: query_catch_def callClaude_catch_def reply_code_def)
  from all rejected kinds show ?thesis
    by simp
qed

theorem error_reply_mapping_witness:
  "reply_status (fst (query_handler (rejecting timed_out) hello_body)) = 504 \<and>
   reply_code (fst (query_handler (rejecting timed_out) hello_body)) = Some TIMEOUT \<and>
   reply_status (fst (query_handler (rejecting unavailable) hello_body)) = 500 \<and>
   reply_code (fst (query_handler (rejecting unavailable) hello_body)) = Some INTERNAL_ERROR"
  using error_reply_mapping [where body = hello_body and p = "js ''hello''" and e = timed_out]
    error_reply_mapping [where body = hello_body and p = "js ''hello''" and e = unavailable]
  by (simp add: callClaude_catch_def js_nonempty length_js hello_body_def timed_out_def
      unavailable_def)

section \<open>Pre-flight validation\<close>

text \<open>
  C7. A prompt that is falsy or not a string is answered with status 400 and code
  INVALID_PROMPT, and a string prompt of more than 10000 code units (10001 for one) with
  status 400 and code PROMPT_TOO_LONG; in both cases, whatever the upstream would do, no
  request is posted to it.
\<close>

theorem preflight_validation:
  "(\<not> truthy (prompt body) \<or> typeof (prompt body) \<noteq> ''string'' \<longrightarrow>
      reply_code (fst (query_handler axios_post body)) = Some INVALID_PROMPT \<and>
      reply_status (fst (query_handler axios_post body)) = 400 \<and>
      snd (query_handler axios_post body) = []) \<and>
   (prompt body = JStr p \<and> 10000 < length p \<longrightarrow>
      reply_code (fst (query_handler axios_post body)) = Some PROMPT_TOO_LONG \<and>
      reply_status (fst (query_handler axios_post body)) = 400 \<and>
      snd (query_handler axios_post body) = [])"
  by (cases "prompt body")
    (auto simp: query_handler_def invalid_prompt_def prompt_too_long_def reply_code_def)

theorem preflight_validation_witness:
  "reply_code (fst (query_handler (resolving None)
      \<lparr> prompt = JStr (replicate 10001 0x61), temperature = JUndefined,
        max_tokens = JUndefined, top_p = JUndefined \<rparr>)) = Some PROMPT_TOO_LONG \<and>
   snd (query_handler (resolving None)
      \<lparr> prompt = JStr (replicate 10001 0x61), temperature = JUndefined,
        max_tokens = JUndefined, top_p = JUndefined \<rparr>) = [] \<and>
   reply_code (fst (query_handler (resolving None)
      \<lparr> prompt = JNum 7, temperature = JUndefined,
        max_tokens = JUndefined, top_p = JUndefined \<rparr>)) = Some INVALID_PROMPT \<and>
   reply_code (fst (query_handler (resolving None)
      \<lparr> prompt = JStr [], temperature = JUndefined,
        max_tokens = JUndefined, top_p = JUndefined \<rparr>)) = Some INVALID_PROMPT"
  using
    preflight_validation [where body = "\<lparr> prompt = JStr (replicate 10001 0x61),
        temperature = JUndefined, max_tokens = JUndefined, top_p = JUndefined \<rparr>"
      and p = "replicate 10001 0x61" and axios_post = "resolving None"]
    preflight_validation [where body = "\<lparr> prompt = JNum 7,
        temperature = JUndefined, max_tokens = JUndefined, top_p = JUndefined \<rparr>"
      and p = "[]" and axios_post = "resolving None"]
    preflight_validation [where body = "\<lparr> prompt = JStr [],
        temperature = JUndefined, max_tokens = JUndefined, top_p = JUndefined \<rparr>"
      and p = "[]" and axios_post = "resolving None"]
  by simp

end
